theory Spec2Isabelle
  imports Main "HOL-Library.Sublist" "HOL-Library.Multiset"
begin

section \<open>JavaScript values\<close>

text \<open>
  The dashboard is TypeScript over untyped JSON. A string-valued property that may be
  missing is a \<open>string option\<close>: \<open>None\<close> is \<open>undefined\<close>. JavaScript strings
  are modelled as \<open>string\<close>: an ASCII character is itself, and a character outside
  ASCII stands as the bytes of its UTF-8 encoding. Every literal the code compares
  against or splits at is ASCII, and an ASCII byte never occurs inside the encoding of
  another character, so that equality, \<open>includes\<close> and \<open>split\<close> agree with
  JavaScript's on the encoded strings.
  \<open>truthy\<close> is JavaScript's truthiness of such a value (the empty string and
  \<open>undefined\<close> are falsy), \<open>js_or\<close> is the operator \<open>||\<close> on two of them.
\<close>

definition truthy :: "string option \<Rightarrow> bool" where
  "truthy v = (case v of None \<Rightarrow> False | Some s \<Rightarrow> s \<noteq> [])"

definition js_or :: "string option \<Rightarrow> string option \<Rightarrow> string option" where
  "js_or a b = (if truthy a then a else b)"

text \<open>\<open>String.prototype.includes\<close>: the argument occurs as a contiguous substring.\<close>

fun js_includes :: "string \<Rightarrow> string \<Rightarrow> bool" where
  "js_includes [] needle = (needle = [])"
| "js_includes (c # cs) needle = (prefix needle (c # cs) \<or> js_includes cs needle)"

text \<open>
  \<open>String.prototype.split\<close> with a string separator, and \<open>Array.prototype.join\<close>.
  \<open>splitJS sep cur s\<close> scans \<open>s\<close> from the left with the piece collected so far in
  \<open>cur\<close>; at each occurrence of the separator the piece is closed and the scan goes on
  behind the occurrence. With the empty separator JavaScript cuts between all code
  units.
\<close>

function splitJS :: "string \<Rightarrow> string \<Rightarrow> string \<Rightarrow> string list" where
  "splitJS sep cur [] = [cur]"
| "splitJS sep cur (c # cs) =
     (if sep \<noteq> [] \<and> prefix sep (c # cs)
      then cur # splitJS sep [] (drop (length sep) (c # cs))
      else splitJS sep (cur @ [c]) cs)"
  by pat_completeness auto
termination
  by (relation "measure (\<lambda>(sep, cur, s). length s)") auto

definition js_split :: "string \<Rightarrow> string \<Rightarrow> string list" where
  "js_split s sep = (if sep = [] then map (\<lambda>c. [c]) s else splitJS sep [] s)"

fun js_join :: "string list \<Rightarrow> string \<Rightarrow> string" where
  "js_join [] v = []"
| "js_join [p] v = p"
| "js_join (p # q # ps) v = p @ v @ js_join (q # ps) v"

section \<open>Shared substitution utility\<close>

text \<open>
  \<open>kubeVarMap\<close> is declared, with the same nineteen entries in the same order, in
  ScanResultsModal.tsx, RemediationModal.tsx, AuditPage.tsx and BenchmarkItemCard.tsx.
  \<open>Object.entries\<close> lists the entries in insertion order.
\<close>

definition kubeVarMap :: "(string \<times> string) list" where
  "kubeVarMap =
    [(''$apiserverconf'', ''/etc/kubernetes/manifests/kube-apiserver.yaml''),
     (''$apiserverbin'', ''kube-apiserver''),
     (''$controllermanagerbin'', ''kube-controller-manager''),
     (''$controllermanagerconf'', ''/etc/kubernetes/manifests/kube-controller-manager.yaml''),
     (''$schedulerbin'', ''kube-scheduler''),
     (''$schedulerconf'', ''/etc/kubernetes/manifests/kube-scheduler.yaml''),
     (''$schedulerkubeconfig'', ''/etc/kubernetes/scheduler.conf''),
     (''$controllermanagerkubeconfig'', ''/etc/kubernetes/controller-manager.conf''),
     (''$etcddatadir'', ''/var/lib/etcd''),
     (''$etcdconf'', ''/etc/kubernetes/manifests/etcd.yaml''),
     (''$etcdbin'', ''etcd''),
     (''$kubeletbin'', ''kubelet''),
     (''$kubeletsvc'', ''/usr/lib/systemd/system/kubelet.service.d/10-kubeadm.conf''),
     (''$kubeletkubeconfig'', ''/etc/kubernetes/kubelet.conf''),
     (''$kubeletconf'', ''/var/lib/kubelet/config.yaml''),
     (''$kubeletcafile'', ''/etc/kubernetes/pki/ca.crt''),
     (''$proxybin'', ''kube-proxy''),
     (''$proxykubeconfig'', ''/var/lib/kube-proxy/kubeconfig.conf''),
     (''$proxyconf'', ''/var/lib/kube-proxy/config.conf'')]"

text \<open>
  The reduction \<open>Object.entries(kubeVarMap).reduce((acc, [key, value]) =>
  acc.split(key).join(value), text)\<close>, common to the four copies.
\<close>

definition substituteAll :: "string \<Rightarrow> string" where
  "substituteAll text = foldl (\<lambda>acc (key, value). js_join (js_split acc key) value) text kubeVarMap"

text \<open>
  ScanResultsModal.tsx, RemediationModal.tsx and BenchmarkItemCard.tsx:
  \<open>if (!text) return text;\<close> hands a falsy argument back as it is.
\<close>

definition applyKubeSubstitutions :: "string option \<Rightarrow> string option" where
  "applyKubeSubstitutions text =
     (if \<not> truthy text then text else map_option substituteAll text)"

definition applyKubeSubstitutions_RemediationModal :: "string option \<Rightarrow> string option" where
  "applyKubeSubstitutions_RemediationModal text =
     (if \<not> truthy text then text else map_option substituteAll text)"

definition applyKubeSubstitutions_ItemCard :: "string option \<Rightarrow> string option" where
  "applyKubeSubstitutions_ItemCard text =
     (if \<not> truthy text then text else map_option substituteAll text)"

text \<open>
  AuditPage.tsx declares the result a \<open>string\<close>: \<open>if (!text) return text || '';\<close>.
\<close>

definition applyKubeSubstitutions_AuditPage :: "string option \<Rightarrow> string" where
  "applyKubeSubstitutions_AuditPage text =
     (if \<not> truthy text then (case js_or text (Some []) of None \<Rightarrow> [] | Some s \<Rightarrow> s)
      else (case text of None \<Rightarrow> [] | Some t \<Rightarrow> substituteAll t))"

text \<open>
  For stating what the reduction does to a text in which tokens occur: a text written
  as a sequence of pieces, each a token of the table or a stretch of other text.
  \<open>pieces_text\<close> is the text as written, \<open>pieces_expanded\<close> the same text with
  every token piece replaced by its value in \<open>kubeVarMap\<close>.
\<close>

datatype piece = Text string | Token string

definition pieces_text :: "piece list \<Rightarrow> string" where
  "pieces_text ps = concat (map (\<lambda>p. case p of Text t \<Rightarrow> t | Token k \<Rightarrow> k) ps)"

definition pieces_expanded :: "piece list \<Rightarrow> string" where
  "pieces_expanded ps =
     concat (map (\<lambda>p. case p of Text t \<Rightarrow> t
                        | Token k \<Rightarrow> (case map_of kubeVarMap k of None \<Rightarrow> k | Some v \<Rightarrow> v)) ps)"

text \<open>
  \<open>occurrences s key\<close> counts the positions of \<open>s\<close> at which \<open>key\<close> starts.
  A stretch of text is \<open>plain\<close> when no dollar sign in it starts a token of the table
  or starts, up to the end of the stretch, the beginning of one.
\<close>

fun occurrences :: "string \<Rightarrow> string \<Rightarrow> nat" where
  "occurrences [] key = (if key = [] then 1 else 0)"
| "occurrences (c # cs) key = (if prefix key (c # cs) then 1 else 0) + occurrences cs key"

fun plain :: "string \<Rightarrow> bool" where
  "plain [] = True"
| "plain (c # cs) =
     ((c \<noteq> CHR ''$''
       \<or> list_all (\<lambda>key. \<not> prefix key (c # cs) \<and> \<not> prefix (c # cs) key) (map fst kubeVarMap))
      \<and> plain cs)"

section \<open>Scan and Fix page: the catalog state\<close>

text \<open>
  Modelled from the spec: the declarations of \<open>BenchmarkItem\<close> and
  \<open>BenchmarkSection\<close> (data/benchmarkData.ts is not among the sources). Section 3 of
  the specification lists the fields; the field \<open>id\<close> is written \<open>bi_id\<close> and
  \<open>sec_id\<close>, and the other fields carry the same prefixes. The records are
  extensible, so a statement about \<open>BenchmarkItem_scheme\<close> also covers an item with
  further properties (such as \<open>variables\<close>).
\<close>

record BenchmarkItem =
  bi_id :: string
  bi_title :: string
  bi_description :: string
  bi_type :: string
  bi_selected :: bool
  bi_status :: "string option"
  bi_remediation :: "string option"

record 'a BenchmarkSection =
  sec_id :: string
  sec_title :: string
  sec_items :: "'a BenchmarkItem_scheme list"

text \<open>
  \<open>handleToggleItem\<close> of BenchmarkDashboard.tsx, as the function it passes to
  \<open>setSections\<close>: from the previous sections to the next.
\<close>

definition handleToggleItem ::
  "string \<Rightarrow> ('a, 'b) BenchmarkSection_scheme list \<Rightarrow> ('a, 'b) BenchmarkSection_scheme list" where
  "handleToggleItem itemId prevSections =
     map (\<lambda>section. section\<lparr>sec_items :=
            map (\<lambda>item. if bi_id item = itemId
                         then item\<lparr>bi_selected := \<not> bi_selected item\<rparr> else item)
                (sec_items section)\<rparr>)
         prevSections"

section \<open>Inventory and bootstrap client: error extraction\<close>










section \<open>Scan results and the report's ordering\<close>

text \<open>
  One entry of a scan's \<open>results\<close> array (typed \<open>any\<close> in the code), with the
  properties the report, the modal and the dashboard read.
\<close>

record ScanResultRow =
  sr_itemId :: "string option"
  sr_id :: "string option"
  sr_title :: "string option"
  sr_status :: "string option"
  sr_type :: "string option"
  sr_details :: "string option"

text \<open>
  \<open>parseInt(part, 10)\<close> first trims the string at its start (\<open>TrimString\<close>) of
  ECMAScript's white space and line terminators: the twenty-five code points U+0009 to
  U+000D, U+0020, U+00A0, U+1680, U+2000 to U+200A, U+2028, U+2029, U+202F, U+205F,
  U+3000 and U+FEFF, here as the bytes of their UTF-8 encoding.
\<close>

definition whiteSpace :: "string list" where
  "whiteSpace =
    [[CHR 0x09], [CHR 0x0A], [CHR 0x0B], [CHR 0x0C], [CHR 0x0D], [CHR 0x20],
     [CHR 0xC2, CHR 0xA0],
     [CHR 0xE1, CHR 0x9A, CHR 0x80],
     [CHR 0xE2, CHR 0x80, CHR 0x80], [CHR 0xE2, CHR 0x80, CHR 0x81],
     [CHR 0xE2, CHR 0x80, CHR 0x82], [CHR 0xE2, CHR 0x80, CHR 0x83],
     [CHR 0xE2, CHR 0x80, CHR 0x84], [CHR 0xE2, CHR 0x80, CHR 0x85],
     [CHR 0xE2, CHR 0x80, CHR 0x86], [CHR 0xE2, CHR 0x80, CHR 0x87],
     [CHR 0xE2, CHR 0x80, CHR 0x88], [CHR 0xE2, CHR 0x80, CHR 0x89],
     [CHR 0xE2, CHR 0x80, CHR 0x8A],
     [CHR 0xE2, CHR 0x80, CHR 0xA8], [CHR 0xE2, CHR 0x80, CHR 0xA9],
     [CHR 0xE2, CHR 0x80, CHR 0xAF],
     [CHR 0xE2, CHR 0x81, CHR 0x9F],
     [CHR 0xE3, CHR 0x80, CHR 0x80],
     [CHR 0xEF, CHR 0xBB, CHR 0xBF]]"

function trimStart :: "string \<Rightarrow> string" where
  "trimStart s = (case filter (\<lambda>w. prefix w s) whiteSpace of
                    [] \<Rightarrow> s
                  | w # _ \<Rightarrow> trimStart (drop (length w) s))"
  by pat_completeness auto
termination
proof (relation "measure length")
  show "wf (measure length)" by simp
next
  fix s :: string and w ws
  assume "filter (\<lambda>w. prefix w s) whiteSpace = w # ws"
  then have "w \<in> set (filter (\<lambda>w. prefix w s) whiteSpace)" by simp
  then have "w \<in> set whiteSpace" and "prefix w s" by simp_all
  from \<open>w \<in> set whiteSpace\<close> have "w \<noteq> []" by (auto simp: whiteSpace_def)
  with \<open>prefix w s\<close> have "s \<noteq> []" by auto
  with \<open>w \<noteq> []\<close> show "(drop (length w) s, s) \<in> measure length" by simp
qed

declare trimStart.simps [simp del]

definition is_digit :: "char \<Rightarrow> bool" where
  "is_digit c = (48 \<le> (of_char c :: nat) \<and> (of_char c :: nat) \<le> 57)"

text \<open>The integer that a run of decimal digits denotes.\<close>

definition digits_value :: "string \<Rightarrow> int" where
  "digits_value ds = foldl (\<lambda>acc c. acc * 10 + (int (of_char c) - 48)) 0 ds"

text \<open>
  The Number value of an integer is the double nearest to it, a tie going to the even
  significand. Every number in this part of the program is the Number value of an
  integer, so a double is modelled as the integer it equals, and \<open>Infinity\<close> as
  \<open>infinity\<close>, 2 to the power 1024, which lies above every finite double and is what
  the rounding yields from 2 to the power 1024 minus 2 to the power 970 on. A
  non-negative integer below 2 to the power 53 is a double. One of \<open>n\<close> bits, with
  \<open>n\<close> above 53, is rounded to a multiple of 2 to the power \<open>n - 53\<close>.
\<close>

function bit_length :: "int \<Rightarrow> nat" where
  "bit_length n = (if n \<le> 0 then 0 else Suc (bit_length (n div 2)))"
  by pat_completeness auto
termination
  by (relation "measure nat") auto

declare bit_length.simps [simp del]

definition infinity :: int where
  "infinity = 2 ^ 1024"

definition nearest_double :: "int \<Rightarrow> int" where
  "nearest_double m =
     (if m < 2 ^ 53 then m
      else let e = bit_length m - 53;
               q = m div 2 ^ e;
               r = m mod 2 ^ e;
               q' = (if 2 ^ e < 2 * r \<or> (2 * r = 2 ^ e \<and> odd q) then q + 1 else q)
           in if 2 ^ 1024 \<le> q' * 2 ^ e then infinity else q' * 2 ^ e)"

definition number_value :: "int \<Rightarrow> int" where
  "number_value x = (if x < 0 then - nearest_double (- x) else nearest_double x)"

text \<open>
  \<open>parseInt(part, 10)\<close>: the string is trimmed at its start, one sign is read, then
  the longest run \<open>z\<close> of decimal digits. Without a digit the result is \<open>NaN\<close>,
  here \<open>None\<close>; otherwise it is the Number value of the sign times the integer that
  \<open>z\<close> denotes. ECMAScript lets an implementation replace the digits after the
  twentieth by 0 before rounding; the integer is rounded as it is. The two zeros are
  one 0: the code does not tell them apart.
\<close>

definition parseInt :: "string \<Rightarrow> int option" where
  "parseInt part =
     (let s = trimStart part;
          sign = (case s of [] \<Rightarrow> 1 | c # _ \<Rightarrow> if c = CHR ''-'' then - 1 else 1);
          rest = (case s of [] \<Rightarrow> []
                  | c # cs \<Rightarrow> if c = CHR ''-'' \<or> c = CHR ''+'' then cs else c # cs);
          z = takeWhile is_digit rest
      in if z = [] then None
         else Some (number_value (sign * digits_value z)))"

definition parseCheckId :: "string \<Rightarrow> int list" where
  "parseCheckId checkId =
     (if checkId = [] then [0]
      else let parts = map (\<lambda>part. case parseInt part of None \<Rightarrow> 0 | Some num \<Rightarrow> num)
                           (js_split checkId ''.'')
           in if length parts > 0 then parts else [0])"

text \<open>\<open>idA[i] || 0\<close>: a missing part, like a part that is 0, counts as 0.\<close>

definition part_at :: "int list \<Rightarrow> nat \<Rightarrow> int" where
  "part_at idA i = (if i < length idA then (if idA ! i = 0 then 0 else idA ! i) else 0)"

text \<open>
  The comparator's loop, from index \<open>i\<close> on; its result is \<open>partA - partB\<close> or 0.
  The difference is the exact one; \<open>Array.prototype.sort\<close> reads the sign of the
  comparator's result, and the difference of two distinct numbers, rounded to a
  double, keeps its sign.
\<close>

function compareFrom :: "nat \<Rightarrow> int list \<Rightarrow> int list \<Rightarrow> int" where
  "compareFrom i idA idB =
     (if i < max (length idA) (length idB)
      then (if part_at idA i \<noteq> part_at idB i then part_at idA i - part_at idB i
            else compareFrom (Suc i) idA idB)
      else 0)"
  by pat_completeness auto
termination
  by (relation "measure (\<lambda>(i, idA, idB). max (length idA) (length idB) - i)") auto

declare compareFrom.simps [simp del]

text \<open>\<open>a.itemId || a.id || ''\<close>\<close>

definition checkIdOf :: "'a ScanResultRow_scheme \<Rightarrow> string" where
  "checkIdOf a = (case js_or (js_or (sr_itemId a) (sr_id a)) (Some []) of
                    None \<Rightarrow> [] | Some s \<Rightarrow> s)"

definition compareChecks :: "'a ScanResultRow_scheme \<Rightarrow> 'a ScanResultRow_scheme \<Rightarrow> int" where
  "compareChecks a b = compareFrom 0 (parseCheckId (checkIdOf a)) (parseCheckId (checkIdOf b))"

text \<open>
  \<open>Array.prototype.sort\<close> with a comparator. ECMAScript requires the sort to be
  stable and, for a consistent comparator, its result to be ordered by it; the two
  fix the result, which a stable insertion sort computes: an element goes in front of
  the first element it does not compare greater than.
\<close>

fun insertBy :: "('a \<Rightarrow> 'a \<Rightarrow> int) \<Rightarrow> 'a \<Rightarrow> 'a list \<Rightarrow> 'a list" where
  "insertBy cmp x [] = [x]"
| "insertBy cmp x (y # ys) = (if cmp x y \<le> 0 then x # y # ys else y # insertBy cmp x ys)"

definition js_sort :: "('a \<Rightarrow> 'a \<Rightarrow> int) \<Rightarrow> 'a list \<Rightarrow> 'a list" where
  "js_sort cmp xs = foldr (insertBy cmp) xs []"

definition sortChecksByIdAscending :: "'a ScanResultRow_scheme list \<Rightarrow> 'a ScanResultRow_scheme list" where
  "sortChecksByIdAscending checks = js_sort compareChecks checks"



section \<open>Export of scan results\<close>

record ExportSummary =
  total :: nat
  passed :: nat
  failed :: nat
  warnings :: nat

text \<open>
  \<open>exportData\<close> without its \<open>format\<close>, \<open>filename\<close> and \<open>timestamp\<close>, which
  neither the summary nor the sections depend on.
\<close>

record 'a ExportData =
  scanResults :: "'a ScanResultRow_scheme list"
  summary :: ExportSummary

text \<open>
  The HTML document of \<open>generateHTMLReport\<close>, by its parts: the four summary tiles
  and the sections in document order, each with its title and the items it lists. A
  section whose list is empty is left out of the document.
\<close>

record 'a HtmlReport =
  tiles :: ExportSummary
  report_sections :: "(string \<times> 'a ScanResultRow_scheme list) list"

definition generateHTMLReport :: "'a ExportData \<Rightarrow> 'a HtmlReport" where
  "generateHTMLReport data =
     (let sortedResults = sortChecksByIdAscending (scanResults data);
          passedItems = filter (\<lambda>r. sr_status r = Some ''PASS'') sortedResults;
          failedItems = filter (\<lambda>r. sr_status r = Some ''FAIL'') sortedResults;
          warningItems = filter (\<lambda>r. sr_status r = Some ''WARN'') sortedResults
      in \<lparr>tiles = summary data,
          report_sections =
            (if length failedItems > 0 then [(''Failed Checks'', failedItems)] else []) @
            (if length warningItems > 0 then [(''Warnings'', warningItems)] else []) @
            (if length passedItems > 0 then [(''Passed Checks'', passedItems)] else [])\<rparr>)"

datatype 'a export_file = JsonFile "'a ExportData" | PdfFile "'a HtmlReport" | HtmlFile "'a HtmlReport"

definition exportScanResults :: "'a ScanResultRow_scheme list \<Rightarrow> string \<Rightarrow> 'a export_file" where
  "exportScanResults results format =
     (let exportData = \<lparr>scanResults = results,
            summary = \<lparr>total = length results,
              passed = length (filter (\<lambda>r. sr_status r = Some ''PASS'') results),
              failed = length (filter (\<lambda>r. sr_status r = Some ''FAIL'') results),
              warnings = length (filter (\<lambda>r. sr_status r = Some ''WARN'') results)\<rparr>\<rparr>
      in if format = ''json'' then JsonFile exportData
         else if format = ''pdf'' then PdfFile (generateHTMLReport exportData)
         else HtmlFile (generateHTMLReport exportData))"

section \<open>Scan-results modal\<close>







section \<open>Scan and Fix page: applying a remediation response\<close>

text \<open>
  A \<open>RemediationResult\<close> as \<open>confirmRemediation\<close> reads it: \<open>rr_success\<close> holds
  when \<open>r.success === true\<close>. The awaited call either throws or yields the response.
\<close>

record RemediationResult =
  rr_checkId :: "string option"
  rr_success :: bool
  rr_status :: "string option"

record RemediationResponse =
  resp_success :: bool
  resp_results :: "RemediationResult list"

datatype 'a settled = Resolved 'a | Rejected string

text \<open>
  The state of BenchmarkDashboard.tsx that \<open>confirmRemediation\<close> writes;
  \<open>submitMessage\<close> is the pair of \<open>type\<close> and \<open>text\<close>.
\<close>

record ('a, 'b) PageState =
  sections :: "('a, 'b) BenchmarkSection_scheme list"
  remediationResults :: "RemediationResult list option"
  submitMessage :: "(string \<times> string) option"
  isRemediationModalOpen :: bool
  isRemediating :: bool

definition passedIds :: "RemediationResult list \<Rightarrow> string option list" where
  "passedIds results =
     map rr_checkId (filter (\<lambda>r. rr_status r = Some ''PASS'' \<or> rr_success r) results)"

definition failedIds :: "RemediationResult list \<Rightarrow> string option list" where
  "failedIds results =
     map rr_checkId (filter (\<lambda>r. truthy (rr_status r) \<and> rr_status r \<noteq> Some ''PASS'') results)"

text \<open>
  \<open>confirmRemediation\<close> from the settled call to the next state. The
  \<open>remediation-complete\<close> event it dispatches on success carries the same two id
  lists and changes no state; it is left out.
\<close>

definition confirmRemediation ::
  "RemediationResponse settled \<Rightarrow> ('a, 'b) PageState \<Rightarrow> ('a, 'b) PageState" where
  "confirmRemediation outcome st =
     (case outcome of
        Rejected message \<Rightarrow>
          st\<lparr>submitMessage := Some (''error'', ''Failed to execute remediation: '' @ message),
             isRemediationModalOpen := False, isRemediating := False\<rparr>
      | Resolved response \<Rightarrow>
          if resp_success response
          then st\<lparr>remediationResults := Some (resp_results response),
                  sections :=
                    (if length (passedIds (resp_results response)) > 0
                        \<or> length (failedIds (resp_results response)) > 0
                     then map (\<lambda>section. section\<lparr>sec_items :=
                            map (\<lambda>item.
                                   if Some (bi_id item) \<in> set (passedIds (resp_results response))
                                   then item\<lparr>bi_status := Some ''PASS''\<rparr>
                                   else if Some (bi_id item) \<in> set (failedIds (resp_results response))
                                   then item\<lparr>bi_status := Some ''FAIL''\<rparr>
                                   else item)
                                (sec_items section)\<rparr>)
                          (sections st)
                     else sections st),
                  isRemediating := False\<rparr>
          else st\<lparr>submitMessage := Some (''error'', ''Remediation failed to start''),
                  isRemediationModalOpen := False, isRemediating := False\<rparr>)"

section \<open>Polling a scan\<close>

text \<open>
  The scan that \<open>getScanStatus\<close> returns as \<open>response.data\<close>. The server is the
  sequence of what the successive calls yield: call number \<open>n\<close> (from 0) either fails
  or returns a scan.
\<close>

record 'a Scan =
  sc_status :: string
  sc_progress :: int
  sc_results :: "'a ScanResultRow_scheme list"

datatype 'a fetched = FetchFailed string | FetchOk "'a Scan"

text \<open>
  \<open>poll\<close> of \<open>pollScanStatus\<close>, at call number \<open>n\<close>, with the calls of
  \<open>onProgress\<close> made so far; \<open>hasOnProgress\<close> says whether the callback was given.
  A fetch that throws rejects the promise with the error thrown.
  The result is how the promise settles and the calls of \<open>onProgress\<close> up to then;
  \<open>None\<close> is a promise that never settles. The two-second timer between two polls
  does not show in the result.
\<close>

partial_function (option) poll ::
  "(nat \<Rightarrow> 'a fetched) \<Rightarrow> bool \<Rightarrow> nat \<Rightarrow> (int \<times> 'a ScanResultRow_scheme list) list
     \<Rightarrow> ('a Scan settled \<times> (int \<times> 'a ScanResultRow_scheme list) list) option" where
  "poll getScanStatus hasOnProgress n calls =
     (case getScanStatus n of
        FetchFailed message \<Rightarrow> Some (Rejected message, calls)
      | FetchOk scan \<Rightarrow>
          let calls' = (if hasOnProgress then calls @ [(sc_progress scan, sc_results scan)]
                        else calls)
          in if sc_status scan = ''completed'' then Some (Resolved scan, calls')
             else if sc_status scan = ''failed'' then Some (Rejected ''Scan failed'', calls')
             else poll getScanStatus hasOnProgress (Suc n) calls')"

definition pollScanStatus ::
  "(nat \<Rightarrow> 'a fetched) \<Rightarrow> bool
     \<Rightarrow> ('a Scan settled \<times> (int \<times> 'a ScanResultRow_scheme list) list) option" where
  "pollScanStatus getScanStatus hasOnProgress = poll getScanStatus hasOnProgress 0 []"

section \<open>Dashboard statistics: remediated checks\<close>

text \<open>
  A scan of the history and a remediation audit event, with the properties the
  statistic reads. \<open>scans\<close> below is the list after the filter (completed, with
  results) and the sort (newest first); \<open>remediationEvents\<close> is the state variable of
  that name as the function sees it.
\<close>

record 'a ScanHistory =
  sh_id :: string
  sh_nodeName :: "string option"
  sh_results :: "'a ScanResultRow_scheme list"

record AuditEvent =
  ev_checkId :: "string option"
  ev_nodeName :: "string option"

text \<open>
  A JavaScript \<open>Set\<close> and \<open>Map\<close> keep insertion order: a set is the list of its
  members, a map the list of its entries; setting a key that is present replaces its
  value in place. A key is \<open>r.itemId || r.id\<close>, which may be \<open>undefined\<close>.
\<close>

definition set_add :: "'k list \<Rightarrow> 'k \<Rightarrow> 'k list" where
  "set_add s k = (if k \<in> set s then s else s @ [k])"

fun map_set :: "('k \<times> 'v) list \<Rightarrow> 'k \<Rightarrow> 'v \<Rightarrow> ('k \<times> 'v) list" where
  "map_set [] k v = [(k, v)]"
| "map_set ((k', v') # m) k v = (if k' = k then (k, v) # m else (k', v') # map_set m k v)"

definition new_Map :: "('k \<times> 'v) list \<Rightarrow> ('k \<times> 'v) list" where
  "new_Map entries = foldl (\<lambda>m (k, v). map_set m k v) [] entries"

definition resultsMap ::
  "'a ScanResultRow_scheme list \<Rightarrow> (string option \<times> 'a ScanResultRow_scheme) list" where
  "resultsMap results = new_Map (map (\<lambda>r. (js_or (sr_itemId r) (sr_id r), r)) results)"

text \<open>The dashboard's test for a manual check (it does not look at the id).\<close>

definition isManualDashboard :: "'a ScanResultRow_scheme \<Rightarrow> bool" where
  "isManualDashboard r =
     (sr_type r = Some ''Manual''
      \<or> (truthy (sr_title r)
          \<and> (case sr_title r of None \<Rightarrow> False | Some t \<Rightarrow> js_includes t ''(Manual)'')))"

text \<open>
  \<open>uniqueRemediated\<close> of \<open>loadDashboardData\<close>: first the check ids of the
  remediation events, then, when there is more than one scan, the keys of the latest
  scan's results that pass now and failed in the scan before it.
\<close>

definition uniqueRemediated ::
  "'e AuditEvent_scheme list \<Rightarrow> ('a, 'b) ScanHistory_scheme list \<Rightarrow> string option list" where
  "uniqueRemediated remediationEvents scans =
     (let fromEvents =
            foldl (\<lambda>s event. if truthy (ev_checkId event) then set_add s (ev_checkId event) else s)
                  [] remediationEvents
      in if length scans > 1
         then let latestMap = resultsMap (sh_results (scans ! 0));
                  previousMap = resultsMap (sh_results (scans ! 1))
              in foldl (\<lambda>s (checkId, latestResult).
                          if sr_status latestResult = Some ''PASS''
                          then (case map_of previousMap checkId of
                                  None \<Rightarrow> s
                                | Some previousResult \<Rightarrow>
                                    if sr_status previousResult = Some ''FAIL''
                                    then (if \<not> isManualDashboard latestResult
                                          then set_add s checkId else s)
                                    else s)
                          else s)
                       fromEvents latestMap
         else fromEvents)"

text \<open>
  \<open>stats.remediatedChecks\<close> after \<open>loadDashboardData\<close>; with no scan the
  statistics are not set (\<open>None\<close>).
\<close>

definition remediatedChecks ::
  "'e AuditEvent_scheme list \<Rightarrow> ('a, 'b) ScanHistory_scheme list \<Rightarrow> nat option" where
  "remediatedChecks remediationEvents scans =
     (if length scans > 0 then Some (length (uniqueRemediated remediationEvents scans)) else None)"

section \<open>Properties of the substitution utility on absent input\<close>

text \<open>
  C6 (as found in the code). On absent input the copies of the utility in the
  scan-results modal, the remediation modal and the item card return the absent value
  itself, not the empty string; only the audit page's copy returns the empty string.
  On every input the first three agree with each other, and the audit page's copy
  returns the same text wherever they return one.
\<close>

theorem applyKubeSubstitutions_absent:
  "applyKubeSubstitutions None = None
   \<and> applyKubeSubstitutions_RemediationModal None = None
   \<and> applyKubeSubstitutions_ItemCard None = None
   \<and> applyKubeSubstitutions_AuditPage None = []
   \<and> applyKubeSubstitutions_RemediationModal text = applyKubeSubstitutions text
   \<and> applyKubeSubstitutions_ItemCard text = applyKubeSubstitutions text
   \<and> applyKubeSubstitutions_AuditPage text =
        (case applyKubeSubstitutions text of None \<Rightarrow> [] | Some r \<Rightarrow> r)"
  by (cases "text")
     (simp_all add: applyKubeSubstitutions_def applyKubeSubstitutions_RemediationModal_def
        applyKubeSubstitutions_ItemCard_def applyKubeSubstitutions_AuditPage_def
        truthy_def js_or_def)

text \<open>
  C6, the claim as stated, fails: for absent input the scan-results modal's copy does
  not return the empty string, and it differs from the audit page's copy.
\<close>

theorem applyKubeSubstitutions_absent_counterexample:
  "applyKubeSubstitutions None \<noteq> Some []
   \<and> applyKubeSubstitutions None \<noteq> Some (applyKubeSubstitutions_AuditPage None)"
  by (simp add: applyKubeSubstitutions_def truthy_def)

section \<open>Frame of the toggle-item operation\<close>

text \<open>
  C10. \<open>handleToggleItem itemId\<close> keeps the number and order of the sections and of
  the items of every section, keeps every section's id and title, and keeps every
  field of every item except that \<open>selected\<close> is negated on the items whose id is
  \<open>itemId\<close>; an item with another id is the same item.
\<close>

theorem handleToggleItem_frame:
  "length (handleToggleItem itemId secs) = length secs
   \<and> (\<forall>n < length secs.
        sec_id (handleToggleItem itemId secs ! n) = sec_id (secs ! n)
      \<and> sec_title (handleToggleItem itemId secs ! n) = sec_title (secs ! n)
      \<and> BenchmarkSection.more (handleToggleItem itemId secs ! n) = BenchmarkSection.more (secs ! n)
      \<and> length (sec_items (handleToggleItem itemId secs ! n)) = length (sec_items (secs ! n))
      \<and> (\<forall>m < length (sec_items (secs ! n)).
            sec_items (handleToggleItem itemId secs ! n) ! m =
              (sec_items (secs ! n) ! m)
                \<lparr>bi_selected := (if bi_id (sec_items (secs ! n) ! m) = itemId
                                  then \<not> bi_selected (sec_items (secs ! n) ! m)
                                  else bi_selected (sec_items (secs ! n) ! m))\<rparr>
          \<and> (bi_id (sec_items (secs ! n) ! m) \<noteq> itemId \<longrightarrow>
               sec_items (handleToggleItem itemId secs ! n) ! m = sec_items (secs ! n) ! m)))"
  by (simp add: handleToggleItem_def)

theorem handleToggleItem_frame_witness:
  "length (handleToggleItem ''1.1.2''
      [\<lparr>sec_id = ''section1'', sec_title = ''Control Plane'', sec_items =
          [\<lparr>bi_id = ''1.1.1'', bi_title = ''a'', bi_description = ''b'', bi_type = ''Automated'',
             bi_selected = True, bi_status = None, bi_remediation = None\<rparr>,
           \<lparr>bi_id = ''1.1.2'', bi_title = ''c'', bi_description = ''d'', bi_type = ''Manual'',
             bi_selected = False, bi_status = Some ''FAIL'', bi_remediation = Some ''fix''\<rparr>]\<rparr>]) = 1
   \<and> sec_items (handleToggleItem ''1.1.2''
      [\<lparr>sec_id = ''section1'', sec_title = ''Control Plane'', sec_items =
          [\<lparr>bi_id = ''1.1.1'', bi_title = ''a'', bi_description = ''b'', bi_type = ''Automated'',
             bi_selected = True, bi_status = None, bi_remediation = None\<rparr>,
           \<lparr>bi_id = ''1.1.2'', bi_title = ''c'', bi_description = ''d'', bi_type = ''Manual'',
             bi_selected = False, bi_status = Some ''FAIL'', bi_remediation = Some ''fix''\<rparr>]\<rparr>] ! 0) =
          [\<lparr>bi_id = ''1.1.1'', bi_title = ''a'', bi_description = ''b'', bi_type = ''Automated'',
             bi_selected = True, bi_status = None, bi_remediation = None\<rparr>,
           \<lparr>bi_id = ''1.1.2'', bi_title = ''c'', bi_description = ''d'', bi_type = ''Manual'',
             bi_selected = True, bi_status = Some ''FAIL'', bi_remediation = Some ''fix''\<rparr>]"
  using handleToggleItem_frame [of "''1.1.2''"
      "[\<lparr>sec_id = ''section1'', sec_title = ''Control Plane'', sec_items =
          [\<lparr>bi_id = ''1.1.1'', bi_title = ''a'', bi_description = ''b'', bi_type = ''Automated'',
             bi_selected = True, bi_status = None, bi_remediation = None\<rparr>,
           \<lparr>bi_id = ''1.1.2'', bi_title = ''c'', bi_description = ''d'', bi_type = ''Manual'',
             bi_selected = False, bi_status = Some ''FAIL'', bi_remediation = Some ''fix''\<rparr>]\<rparr>]"]
  by (simp add: handleToggleItem_def)

section \<open>Error message of a failed inventory or bootstrap request\<close>




section \<open>Manual checks in the exported report\<close>

text \<open>
  C1, evaluated on the code. A single result of type Manual with status FAIL is
  exported under "Failed Checks" and counted as failed; the report has no "Warnings"
  section and the summary counts no warning.
\<close>

theorem exportScanResults_manual_fail:
  "exportScanResults
      [\<lparr>sr_itemId = Some ''1.1.9'', sr_id = None, sr_title = Some ''Ensure that the file is reviewed (Manual)'',
         sr_status = Some ''FAIL'', sr_type = Some ''Manual'', sr_details = Some ''Check failed''\<rparr>] ''html''
   = HtmlFile \<lparr>tiles = \<lparr>total = 1, passed = 0, failed = 1, warnings = 0\<rparr>,
       report_sections = [(''Failed Checks'',
         [\<lparr>sr_itemId = Some ''1.1.9'', sr_id = None, sr_title = Some ''Ensure that the file is reviewed (Manual)'',
         sr_status = Some ''FAIL'', sr_type = Some ''Manual'', sr_details = Some ''Check failed''\<rparr>])]\<rparr>"
  by (simp add: exportScanResults_def generateHTMLReport_def sortChecksByIdAscending_def
        js_sort_def)

section \<open>Sections of the scan-results modal\<close>




section \<open>Item status after a remediation response\<close>

lemma in_passedIds:
  "Some i \<in> set (passedIds results) \<longleftrightarrow>
     (\<exists>r \<in> set results. rr_checkId r = Some i \<and> (rr_status r = Some ''PASS'' \<or> rr_success r))"
  by (force simp: passedIds_def)

lemma in_failedIds:
  "Some i \<in> set (failedIds results) \<longleftrightarrow>
     (\<exists>r \<in> set results. rr_checkId r = Some i \<and> truthy (rr_status r) \<and> rr_status r \<noteq> Some ''PASS'')"
  by (force simp: failedIds_def)

text \<open>
  C2 (as found in the code). After a successful remediation response an item's status
  is PASS when some result for its id has verification status PASS or has
  \<open>success === true\<close>; otherwise it is FAIL when some result for its id has a
  non-empty status other than PASS; otherwise the item is unchanged.
\<close>

theorem confirmRemediation_status:
  assumes "resp_success response"
  shows "sections (confirmRemediation (Resolved response) st) =
     map (\<lambda>section. section\<lparr>sec_items :=
            map (\<lambda>item.
                   if \<exists>r \<in> set (resp_results response). rr_checkId r = Some (bi_id item)
                        \<and> (rr_status r = Some ''PASS'' \<or> rr_success r)
                   then item\<lparr>bi_status := Some ''PASS''\<rparr>
                   else if \<exists>r \<in> set (resp_results response). rr_checkId r = Some (bi_id item)
                        \<and> truthy (rr_status r) \<and> rr_status r \<noteq> Some ''PASS''
                   then item\<lparr>bi_status := Some ''FAIL''\<rparr>
                   else item)
                (sec_items section)\<rparr>)
         (sections st)"
proof (cases "length (passedIds (resp_results response)) > 0
              \<or> length (failedIds (resp_results response)) > 0")
  case True
  then show ?thesis using assms
    by (simp add: confirmRemediation_def in_passedIds in_failedIds cong: if_cong)
next
  case False
  then have none: "\<And>i. Some i \<notin> set (passedIds (resp_results response))"
      "\<And>i. Some i \<notin> set (failedIds (resp_results response))"
    by auto
  have "map (\<lambda>section. section\<lparr>sec_items := map (\<lambda>item. item) (sec_items section)\<rparr>) (sections st)
        = sections st"
    by (simp add: map_idI)
  with False none show ?thesis using assms
    by (simp add: confirmRemediation_def in_passedIds [symmetric] in_failedIds [symmetric]
          cong: if_cong)
qed

theorem confirmRemediation_status_witness:
  "map (map bi_status \<circ> sec_items)
     (sections (confirmRemediation
       (Resolved \<lparr>resp_success = True, resp_results =
         [\<lparr>rr_checkId = Some ''1.1.1'', rr_success = False, rr_status = Some ''PASS''\<rparr>,
          \<lparr>rr_checkId = Some ''1.1.2'', rr_success = False, rr_status = Some ''FAIL''\<rparr>]\<rparr>)
       \<lparr>sections =
         [\<lparr>sec_id = ''section1'', sec_title = ''Control Plane'', sec_items =
            [\<lparr>bi_id = ''1.1.1'', bi_title = ''a'', bi_description = ''b'', bi_type = ''Automated'',
               bi_selected = True, bi_status = Some ''FAIL'', bi_remediation = None\<rparr>,
             \<lparr>bi_id = ''1.1.2'', bi_title = ''c'', bi_description = ''d'', bi_type = ''Automated'',
               bi_selected = False, bi_status = Some ''FAIL'', bi_remediation = None\<rparr>]\<rparr>],
        remediationResults = None, submitMessage = None,
        isRemediationModalOpen = True, isRemediating = True\<rparr>))
   = [[Some ''PASS'', Some ''FAIL'']]"
  using confirmRemediation_status [of
     "\<lparr>resp_success = True, resp_results =
         [\<lparr>rr_checkId = Some ''1.1.1'', rr_success = False, rr_status = Some ''PASS''\<rparr>,
          \<lparr>rr_checkId = Some ''1.1.2'', rr_success = False, rr_status = Some ''FAIL''\<rparr>]\<rparr>"
     "\<lparr>sections =
         [\<lparr>sec_id = ''section1'', sec_title = ''Control Plane'', sec_items =
            [\<lparr>bi_id = ''1.1.1'', bi_title = ''a'', bi_description = ''b'', bi_type = ''Automated'',
               bi_selected = True, bi_status = Some ''FAIL'', bi_remediation = None\<rparr>,
             \<lparr>bi_id = ''1.1.2'', bi_title = ''c'', bi_description = ''d'', bi_type = ''Automated'',
               bi_selected = False, bi_status = Some ''FAIL'', bi_remediation = None\<rparr>]\<rparr>],
        remediationResults = None, submitMessage = None,
        isRemediationModalOpen = True, isRemediating = True\<rparr>"]
  by (simp add: truthy_def)

text \<open>
  C2, the claim as stated, fails: a result whose fix reported success and whose
  verification status is FAIL turns the item's status from FAIL to PASS.
\<close>

theorem confirmRemediation_status_counterexample:
  "map (map bi_status \<circ> sec_items)
     (sections (confirmRemediation
       (Resolved \<lparr>resp_success = True, resp_results =
         [\<lparr>rr_checkId = Some ''1.1.1'', rr_success = True, rr_status = Some ''FAIL''\<rparr>]\<rparr>)
       \<lparr>sections =
         [\<lparr>sec_id = ''section1'', sec_title = ''Control Plane'', sec_items =
            [\<lparr>bi_id = ''1.1.1'', bi_title = ''a'', bi_description = ''b'', bi_type = ''Automated'',
               bi_selected = True, bi_status = Some ''FAIL'', bi_remediation = None\<rparr>,
             \<lparr>bi_id = ''1.1.2'', bi_title = ''c'', bi_description = ''d'', bi_type = ''Automated'',
               bi_selected = False, bi_status = Some ''FAIL'', bi_remediation = None\<rparr>]\<rparr>],
        remediationResults = None, submitMessage = None,
        isRemediationModalOpen = True, isRemediating = True\<rparr>))
   = [[Some ''PASS'', Some ''FAIL'']]"
  by (simp add: confirmRemediation_def passedIds_def failedIds_def truthy_def)

section \<open>Termination of polling\<close>

text \<open>
  C5 (as found in the code). When the successive fetches return a running, a running
  and a completed scan, \<open>pollScanStatus\<close> calls \<open>onProgress\<close> three times, once
  per fetch and the last time with the completed scan, and then resolves with the
  completed scan. When they return a running and then a failed scan, it calls
  \<open>onProgress\<close> twice and rejects with "Scan failed".
\<close>

theorem pollScanStatus_scenarios:
  "(getScanStatus 0 = FetchOk a \<and> sc_status a = ''running''
     \<and> getScanStatus 1 = FetchOk b \<and> sc_status b = ''running''
     \<and> getScanStatus 2 = FetchOk c \<and> sc_status c = ''completed''
    \<longrightarrow> pollScanStatus getScanStatus True =
          Some (Resolved c, [(sc_progress a, sc_results a), (sc_progress b, sc_results b),
                             (sc_progress c, sc_results c)]))
   \<and> (getScanStatus' 0 = FetchOk d \<and> sc_status d = ''running''
     \<and> getScanStatus' 1 = FetchOk e \<and> sc_status e = ''failed''
    \<longrightarrow> pollScanStatus getScanStatus' True =
          Some (Rejected ''Scan failed'', [(sc_progress d, sc_results d), (sc_progress e, sc_results e)]))"
  by (simp add: pollScanStatus_def numeral_2_eq_2 Let_def
        poll.simps [of getScanStatus True 0] poll.simps [of getScanStatus True "Suc 0"]
        poll.simps [of getScanStatus True "Suc (Suc 0)"]
        poll.simps [of getScanStatus' True 0] poll.simps [of getScanStatus' True "Suc 0"])

theorem pollScanStatus_scenarios_witness:
  "pollScanStatus (\<lambda>n. if n = 0 then FetchOk \<lparr>sc_status = ''running'', sc_progress = 10, sc_results = []\<rparr> else if n = 1 then FetchOk \<lparr>sc_status = ''running'', sc_progress = 50, sc_results = []\<rparr> else FetchOk \<lparr>sc_status = ''completed'', sc_progress = 100, sc_results = []\<rparr>) True
     = Some (Resolved \<lparr>sc_status = ''completed'', sc_progress = 100, sc_results = []\<rparr>, [(10, []), (50, []), (100, [])])
   \<and> pollScanStatus (\<lambda>n. if n = 0 then FetchOk \<lparr>sc_status = ''running'', sc_progress = 10, sc_results = []\<rparr> else FetchOk \<lparr>sc_status = ''failed'', sc_progress = 40, sc_results = []\<rparr>) True
     = Some (Rejected ''Scan failed'', [(10, []), (40, [])])"
  using pollScanStatus_scenarios [of
     "(\<lambda>n. if n = 0 then FetchOk \<lparr>sc_status = ''running'', sc_progress = 10, sc_results = []\<rparr> else if n = 1 then FetchOk \<lparr>sc_status = ''running'', sc_progress = 50, sc_results = []\<rparr> else FetchOk \<lparr>sc_status = ''completed'', sc_progress = 100, sc_results = []\<rparr>)"
     "\<lparr>sc_status = ''running'', sc_progress = 10, sc_results = []\<rparr>" "\<lparr>sc_status = ''running'', sc_progress = 50, sc_results = []\<rparr>" "\<lparr>sc_status = ''completed'', sc_progress = 100, sc_results = []\<rparr>"
     "(\<lambda>n. if n = 0 then FetchOk \<lparr>sc_status = ''running'', sc_progress = 10, sc_results = []\<rparr> else FetchOk \<lparr>sc_status = ''failed'', sc_progress = 40, sc_results = []\<rparr>)"
     "\<lparr>sc_status = ''running'', sc_progress = 10, sc_results = []\<rparr>" "\<lparr>sc_status = ''failed'', sc_progress = 40, sc_results = []\<rparr>"]
  by simp

text \<open>
  C5, the claim as stated, fails: on running, running, completed the callback has been
  called three times, not twice, when the promise resolves.
\<close>

theorem pollScanStatus_scenarios_counterexample:
  "map_option (\<lambda>(outcome, calls). (outcome, length calls))
     (pollScanStatus (\<lambda>n. if n = 0 then FetchOk \<lparr>sc_status = ''running'', sc_progress = 10, sc_results = []\<rparr> else if n = 1 then FetchOk \<lparr>sc_status = ''running'', sc_progress = 50, sc_results = []\<rparr> else FetchOk \<lparr>sc_status = ''completed'', sc_progress = 100, sc_results = []\<rparr>) True)
   = Some (Resolved \<lparr>sc_status = ''completed'', sc_progress = 100, sc_results = []\<rparr>, 3)"
  by (simp add: pollScanStatus_def poll.simps Let_def)

section \<open>Remediated checks of the dashboard\<close>

text \<open>
  C3, evaluated on the code. With no remediation event and two scans of different
  nodes, the latest on node-b passing check 1.1.1 and the one before on node-a failing
  it, the statistic counts one remediated check.
\<close>

theorem remediatedChecks_other_node:
  "remediatedChecks ([] :: AuditEvent list)
     [\<lparr>sh_id = ''scan-2'', sh_nodeName = Some ''node-b'', sh_results =
         [\<lparr>sr_itemId = Some ''1.1.1'', sr_id = None, sr_title = Some ''Ensure permissions are 600'',
           sr_status = Some ''PASS'', sr_type = Some ''Automated'', sr_details = None\<rparr>]\<rparr>,
      \<lparr>sh_id = ''scan-1'', sh_nodeName = Some ''node-a'', sh_results =
         [\<lparr>sr_itemId = Some ''1.1.1'', sr_id = None, sr_title = Some ''Ensure permissions are 600'',
           sr_status = Some ''FAIL'', sr_type = Some ''Automated'', sr_details = None\<rparr>]\<rparr>]
   = Some 1"
  by (simp add: remediatedChecks_def uniqueRemediated_def resultsMap_def new_Map_def js_or_def
        truthy_def set_add_def isManualDashboard_def)

section \<open>Splitting and joining\<close>

lemma splitJS_nonempty: "splitJS sep cur s \<noteq> []"
  by (induction sep cur s rule: splitJS.induct) auto

lemma js_join_Cons: "ps \<noteq> [] \<Longrightarrow> js_join (p # ps) v = p @ v @ js_join ps v"
  by (cases ps) auto



section \<open>Ordering of the report by dotted id\<close>












section \<open>Reading the parts of a dotted id\<close>





















lemma nearest_double_exact: "m < 2 ^ 53 \<Longrightarrow> nearest_double m = m"
  by (simp add: nearest_double_def)





section \<open>The report's order\<close>




section \<open>Token substitution on texts with and without tokens\<close>

lemma join_split_cur: "js_join (splitJS sep cur s) v = cur @ js_join (splitJS sep [] s) v"
proof (induction "length s" arbitrary: s cur rule: less_induct)
  case less
  show ?case
  proof (cases s)
    case Nil
    then show ?thesis by simp
  next
    case (Cons c cs)
    show ?thesis
    proof (cases "sep \<noteq> [] \<and> prefix sep (c # cs)")
      case True
      then show ?thesis unfolding Cons by (simp add: js_join_Cons splitJS_nonempty)
    next
      case False
      have "js_join (splitJS sep (cur @ [c]) cs) v = (cur @ [c]) @ js_join (splitJS sep [] cs) v"
        using less [of cs "cur @ [c]"] Cons by simp
      moreover have "js_join (splitJS sep [c] cs) v = [c] @ js_join (splitJS sep [] cs) v"
        using less [of cs "[c]"] Cons by simp
      ultimately show ?thesis unfolding Cons using False by auto
    qed
  qed
qed

text \<open>One pass of the reduction, as a replacement scanning from the left.\<close>

lemma pass_Nil: "js_join (js_split [] key) v = []"
  by (simp add: js_split_def)

lemma pass_match:
  assumes "key \<noteq> []"
  shows "js_join (js_split (key @ s) key) v = v @ js_join (js_split s key) v"
proof -
  obtain c cs where key: "key = c # cs" using assms by (cases key) auto
  have "splitJS key [] (key @ s) = [] # splitJS key [] s"
    unfolding key by simp
  then show ?thesis using assms
    by (simp add: js_split_def js_join_Cons splitJS_nonempty)
qed

lemma pass_skip:
  assumes "key \<noteq> []" and "\<not> prefix key (c # s)"
  shows "js_join (js_split (c # s) key) v = c # js_join (js_split s key) v"
  using assms join_split_cur [of key "[c]" s v] by (simp add: js_split_def)

lemma pass_text:
  assumes "key = d # ks" and "d \<notin> set t"
  shows "js_join (js_split (t @ s) key) v = t @ js_join (js_split s key) v"
  using assms(2)
proof (induction t)
  case Nil
  then show ?case by simp
next
  case (Cons c t)
  then have "\<not> prefix key (c # t @ s)" using assms(1) by auto
  then show ?case using Cons assms(1) pass_skip [of key c "t @ s" v] by simp
qed

lemma pass_other_token:
  assumes "key = d # ks" and "key' = d # ks'" and "d \<notin> set ks'"
    and "\<not> prefix key key'" and "\<not> prefix key' key"
  shows "js_join (js_split (key' @ s) key) v = key' @ js_join (js_split s key) v"
proof -
  have "\<not> prefix key (key' @ s)"
    using assms(4,5) by (metis prefix_append prefixI)
  then have "js_join (js_split (key' @ s) key) v = d # js_join (js_split (ks' @ s) key) v"
    using assms(1,2) pass_skip [of key d "ks' @ s" v] by simp
  also have "\<dots> = d # ks' @ js_join (js_split s key) v"
    using pass_text [OF assms(1,3)] by simp
  finally show ?thesis using assms(2) by simp
qed

lemma pass_absent:
  assumes "key \<noteq> []" and "\<not> js_includes s key"
  shows "js_join (js_split s key) v = s"
  using assms(2)
proof (induction s)
  case Nil
  then show ?case by (simp add: js_split_def)
next
  case (Cons c s)
  then show ?case using assms(1) pass_skip [of key c s v] by simp
qed

lemma pieces_text_Nil: "pieces_text [] = []"
  by (simp add: pieces_text_def)

lemma pieces_text_Text: "pieces_text (Text t # ps) = t @ pieces_text ps"
  by (simp add: pieces_text_def)

lemma pieces_text_Token: "pieces_text (Token k # ps) = k @ pieces_text ps"
  by (simp add: pieces_text_def)

lemma kubeVarMap_tokens:
  "\<forall>(k, v)\<in>set kubeVarMap. \<exists>ks. k = CHR ''$'' # ks \<and> CHR ''$'' \<notin> set ks \<and> CHR ''$'' \<notin> set v"
  by (simp add: kubeVarMap_def)

lemma kubeVarMap_prefix_free:
  "\<forall>k\<in>fst ` set kubeVarMap. \<forall>k'\<in>fst ` set kubeVarMap. k \<noteq> k' \<longrightarrow> \<not> prefix k k'"
  by (simp add: kubeVarMap_def)

lemma fold_absent:
  "\<forall>(key, value)\<in>set tbl. key \<noteq> [] \<and> \<not> js_includes s key \<Longrightarrow>
   foldl (\<lambda>acc (key, value). js_join (js_split acc key) value) s tbl = s"
  by (induction tbl) (auto simp: pass_absent)

lemma kubeVarMap_keys_nonempty: "\<forall>(key, value)\<in>set kubeVarMap. key \<noteq> []"
  using kubeVarMap_tokens by fastforce

lemma substituteAll_absent:
  assumes "\<forall>key\<in>fst ` set kubeVarMap. \<not> js_includes s key"
  shows "substituteAll s = s"
  unfolding substituteAll_def
proof (rule fold_absent)
  show "\<forall>(key, value)\<in>set kubeVarMap. key \<noteq> [] \<and> \<not> js_includes s key"
    using assms kubeVarMap_keys_nonempty by force
qed

lemma plain_no_dollar: "CHR ''$'' \<notin> set t \<Longrightarrow> plain t"
  by (induction t) auto

lemma pass_plain:
  assumes key: "key = CHR ''$'' # ks" and mem: "key \<in> fst ` set kubeVarMap"
  shows "plain t \<Longrightarrow> js_join (js_split (t @ s) key) v = t @ js_join (js_split s key) v"
proof (induction t)
  case Nil
  then show ?case by simp
next
  case (Cons c t)
  have "\<not> prefix key ((c # t) @ s)"
  proof (cases "c = CHR ''$''")
    case False
    then show ?thesis using key by simp
  next
    case True
    with Cons.prems mem have "\<not> prefix key (c # t)" "\<not> prefix (c # t) key"
      by (auto simp: list_all_iff)
    then show ?thesis by (metis prefix_append prefixI)
  qed
  then have "js_join (js_split (c # t @ s) key) v = c # js_join (js_split (t @ s) key) v"
    using key pass_skip [of key c "t @ s" v] by simp
  then show ?case using Cons by simp
qed

lemma pass_pieces_plain:
  assumes key: "key = CHR ''$'' # ks" and mem: "key \<in> fst ` set kubeVarMap"
    and ps: "\<forall>p\<in>set ps. case p of Text t \<Rightarrow> plain t
               | Token k \<Rightarrow> (\<exists>ks'. k = CHR ''$'' # ks' \<and> CHR ''$'' \<notin> set ks')
                             \<and> (k \<noteq> key \<longrightarrow> \<not> prefix key k \<and> \<not> prefix k key)"
  shows "js_join (js_split (pieces_text ps) key) v =
         pieces_text (map (\<lambda>p. case p of Text t \<Rightarrow> Text t
                                 | Token k \<Rightarrow> if k = key then Text v else Token k) ps)"
  using ps
proof (induction ps)
  case Nil
  then show ?case by (simp add: pieces_text_Nil js_split_def)
next
  case (Cons p ps)
  let ?step = "\<lambda>p. case p of Text t \<Rightarrow> Text t | Token k \<Rightarrow> if k = key then Text v else Token k"
  from Cons have IH: "js_join (js_split (pieces_text ps) key) v = pieces_text (map ?step ps)"
    by simp
  have nonempty: "key \<noteq> []" using key by simp
  show ?case
  proof (cases p)
    case (Text t)
    then have "plain t" using Cons.prems by simp
    then have "js_join (js_split (t @ pieces_text ps) key) v = t @ pieces_text (map ?step ps)"
      using pass_plain [OF key mem, of t "pieces_text ps" v] IH by simp
    then show ?thesis unfolding Text by (simp add: pieces_text_Text)
  next
    case (Token k)
    show ?thesis
    proof (cases "k = key")
      case True
      have "js_join (js_split (key @ pieces_text ps) key) v = v @ pieces_text (map ?step ps)"
        using pass_match [OF nonempty, of "pieces_text ps" v] IH by simp
      then show ?thesis unfolding Token True by (simp add: pieces_text_Token pieces_text_Text)
    next
      case False
      from Cons.prems Token False obtain ks' where k: "k = CHR ''$'' # ks'" "CHR ''$'' \<notin> set ks'"
        "\<not> prefix key k" "\<not> prefix k key" by auto
      have "js_join (js_split (k @ pieces_text ps) key) v = k @ pieces_text (map ?step ps)"
        using pass_other_token [OF key k, of "pieces_text ps" v] IH by simp
      then show ?thesis unfolding Token using False by (simp add: pieces_text_Token)
    qed
  qed
qed

lemma fold_pieces_plain:
  "set tbl \<subseteq> set kubeVarMap \<Longrightarrow>
     \<forall>p\<in>set ps. (case p of Text t \<Rightarrow> plain t | Token k \<Rightarrow> k \<in> fst ` set kubeVarMap) \<Longrightarrow>
     foldl (\<lambda>acc (key, value). js_join (js_split acc key) value) (pieces_text ps) tbl =
     pieces_text (map (\<lambda>p. case p of Text t \<Rightarrow> Text t
                        | Token k \<Rightarrow> (case map_of tbl k of None \<Rightarrow> Token k | Some v \<Rightarrow> Text v)) ps)"
proof (induction tbl arbitrary: ps)
  case Nil
  have "map (\<lambda>p. case p of Text t \<Rightarrow> Text t
        | Token k \<Rightarrow> (case map_of [] k of None \<Rightarrow> Token k | Some v \<Rightarrow> Text v)) ps = ps"
    by (induction ps) (auto split: piece.splits)
  then show ?case by simp
next
  case (Cons kv tbl)
  note tok = kubeVarMap_tokens and inc = kubeVarMap_prefix_free
  obtain key v where kv: "kv = (key, v)" by (cases kv)
  from Cons.prems(1) kv have mem: "(key, v) \<in> set kubeVarMap" by simp
  with tok obtain ks where key: "key = CHR ''$'' # ks" "CHR ''$'' \<notin> set ks" "CHR ''$'' \<notin> set v"
    by auto
  have keymem: "key \<in> fst ` set kubeVarMap" using mem by force
  let ?step = "\<lambda>p. case p of Text t \<Rightarrow> Text t | Token k \<Rightarrow> if k = key then Text v else Token k"
  have wf: "\<forall>p\<in>set ps. case p of Text t \<Rightarrow> plain t
               | Token k \<Rightarrow> (\<exists>ks'. k = CHR ''$'' # ks' \<and> CHR ''$'' \<notin> set ks')
                             \<and> (k \<noteq> key \<longrightarrow> \<not> prefix key k \<and> \<not> prefix k key)"
  proof
    fix p assume p: "p \<in> set ps"
    show "case p of Text t \<Rightarrow> plain t
               | Token k \<Rightarrow> (\<exists>ks'. k = CHR ''$'' # ks' \<and> CHR ''$'' \<notin> set ks')
                             \<and> (k \<noteq> key \<longrightarrow> \<not> prefix key k \<and> \<not> prefix k key)"
    proof (cases p)
      case (Text t)
      then show ?thesis using Cons.prems(2) p by auto
    next
      case (Token k)
      then have "k \<in> fst ` set kubeVarMap" using Cons.prems(2) p by auto
      then show ?thesis using keymem tok inc Token by fastforce
    qed
  qed
  have one: "js_join (js_split (pieces_text ps) key) v = pieces_text (map ?step ps)"
    by (rule pass_pieces_plain [OF key(1) keymem wf])
  have wf': "\<forall>p\<in>set (map ?step ps).
      (case p of Text t \<Rightarrow> plain t | Token k \<Rightarrow> k \<in> fst ` set kubeVarMap)"
    using Cons.prems(2) plain_no_dollar [OF key(3)] by (auto split: piece.splits)
  have "foldl (\<lambda>acc (key, value). js_join (js_split acc key) value) (pieces_text ps) (kv # tbl)
      = foldl (\<lambda>acc (key, value). js_join (js_split acc key) value) (pieces_text (map ?step ps)) tbl"
    using one kv by simp
  also have "\<dots> = pieces_text (map (\<lambda>p. case p of Text t \<Rightarrow> Text t
                        | Token k \<Rightarrow> (case map_of tbl k of None \<Rightarrow> Token k | Some v \<Rightarrow> Text v))
                      (map ?step ps))"
    using Cons.IH [OF _ wf'] Cons.prems(1) by simp
  also have "map (\<lambda>p. case p of Text t \<Rightarrow> Text t
                        | Token k \<Rightarrow> (case map_of tbl k of None \<Rightarrow> Token k | Some v \<Rightarrow> Text v))
                      (map ?step ps)
      = map (\<lambda>p. case p of Text t \<Rightarrow> Text t
                        | Token k \<Rightarrow> (case map_of (kv # tbl) k of None \<Rightarrow> Token k | Some v \<Rightarrow> Text v)) ps"
    using kv by (auto split: piece.splits)
  finally show ?case .
qed

lemma substituteAll_pieces_plain:
  assumes "\<forall>p\<in>set ps. case p of Text t \<Rightarrow> plain t | Token k \<Rightarrow> k \<in> fst ` set kubeVarMap"
  shows "substituteAll (pieces_text ps) = pieces_expanded ps"
proof -
  have "substituteAll (pieces_text ps) =
     pieces_text (map (\<lambda>p. case p of Text t \<Rightarrow> Text t
        | Token k \<Rightarrow> (case map_of kubeVarMap k of None \<Rightarrow> Token k | Some v \<Rightarrow> Text v)) ps)"
    unfolding substituteAll_def
    by (rule fold_pieces_plain [OF subset_refl assms])
  also have "\<dots> = pieces_expanded ps"
    unfolding pieces_text_def pieces_expanded_def
    by (induction ps) (auto split: piece.splits option.splits)
  finally show ?thesis .
qed

lemma stray_once:
  "list_all (\<lambda>key. occurrences
      (pieces_text ([Text ''$'', Token ''$kubeletbin'', Text ''conf'']
         @ map Token (filter (\<lambda>k. k \<noteq> ''$kubeletbin'') (map fst kubeVarMap)))) key = 1)
     (map fst kubeVarMap)"
  by code_simp

lemma stray_differs:
  "applyKubeSubstitutions (Some
      (pieces_text ([Text ''$'', Token ''$kubeletbin'', Text ''conf'']
         @ map Token (filter (\<lambda>k. k \<noteq> ''$kubeletbin'') (map fst kubeVarMap)))))
   \<noteq> Some (pieces_expanded ([Text ''$'', Token ''$kubeletbin'', Text ''conf'']
         @ map Token (filter (\<lambda>k. k \<noteq> ''$kubeletbin'') (map fst kubeVarMap))))"
  by code_simp

text \<open>
  A dollar sign directly in front of a token can form, with the value put for the
  token, a token of a later pass.
\<close>

lemma substituteAll_stray_dollar:
  "substituteAll ''$$kubeletbinconf'' = ''/var/lib/kubelet/config.yaml''"
  by (simp add: substituteAll_def kubeVarMap_def js_split_def)

text \<open>
  C7 (as found in the code). The table has 19 tokens. On a text that contains none of
  them the utility is the identity. On a text written from tokens of the table and
  stretches of plain text, in any order and number and with or without text between
  two tokens (so in particular when each of the 19 tokens occurs exactly once), it
  returns the text with every token occurrence replaced by its table value. A stretch
  is plain when no dollar sign in it starts a token or starts, up to the end of the
  stretch, the beginning of one; text without a dollar sign is plain. Each pass is a
  literal replacement scanning from the left: where the key starts the text the value
  is put and the scan goes on behind the key, and any other character is copied. The
  passes run in the order of the table, each on the result of the one before, so a
  later pass also rewrites a token that an earlier pass completed.
\<close>

theorem applyKubeSubstitutions_expands:
  "length kubeVarMap = 19
   \<and> ((\<forall>key\<in>fst ` set kubeVarMap. \<not> js_includes s key)
        \<longrightarrow> applyKubeSubstitutions (Some s) = Some s)
   \<and> ((\<forall>p\<in>set ps. case p of Text t \<Rightarrow> plain t | Token k \<Rightarrow> k \<in> fst ` set kubeVarMap)
        \<longrightarrow> applyKubeSubstitutions (Some (pieces_text ps)) = Some (pieces_expanded ps))
   \<and> (CHR ''$'' \<notin> set t \<longrightarrow> plain t)
   \<and> (key \<noteq> [] \<longrightarrow> js_join (js_split (key @ rest) key) v = v @ js_join (js_split rest key) v)
   \<and> (key \<noteq> [] \<and> \<not> prefix key (c # rest)
        \<longrightarrow> js_join (js_split (c # rest) key) v = c # js_join (js_split rest key) v)
   \<and> js_join (js_split [] key) v = []
   \<and> (s \<noteq> [] \<longrightarrow> applyKubeSubstitutions (Some s) =
        Some (foldl (\<lambda>acc (key, value). js_join (js_split acc key) value) s kubeVarMap))
   \<and> applyKubeSubstitutions (Some ''$$kubeletbinconf'') = Some ''/var/lib/kubelet/config.yaml''"
proof -
  have count: "length kubeVarMap = 19"
    by (simp add: kubeVarMap_def)
  have absent: "(\<forall>key\<in>fst ` set kubeVarMap. \<not> js_includes s key)
        \<longrightarrow> applyKubeSubstitutions (Some s) = Some s"
    by (cases s) (simp_all add: applyKubeSubstitutions_def truthy_def substituteAll_absent)
  have keys: "\<forall>k\<in>fst ` set kubeVarMap. k \<noteq> []"
    using kubeVarMap_keys_nonempty by fastforce
  have empty: "(\<forall>p\<in>set ps. case p of Text t \<Rightarrow> plain t | Token k \<Rightarrow> k \<in> fst ` set kubeVarMap)
        \<Longrightarrow> pieces_text ps = [] \<Longrightarrow> pieces_expanded ps = []"
    using keys
    by (induction ps) (auto simp: pieces_text_def pieces_expanded_def split: piece.splits)
  have pieces: "(\<forall>p\<in>set ps. case p of Text t \<Rightarrow> plain t | Token k \<Rightarrow> k \<in> fst ` set kubeVarMap)
        \<longrightarrow> applyKubeSubstitutions (Some (pieces_text ps)) = Some (pieces_expanded ps)"
    using empty by (simp add: applyKubeSubstitutions_def truthy_def substituteAll_pieces_plain)
  have dollar_free: "CHR ''$'' \<notin> set t \<longrightarrow> plain t"
    by (simp add: plain_no_dollar)
  have match: "key \<noteq> [] \<longrightarrow> js_join (js_split (key @ rest) key) v = v @ js_join (js_split rest key) v"
    by (simp add: pass_match)
  have skip: "key \<noteq> [] \<and> \<not> prefix key (c # rest)
        \<longrightarrow> js_join (js_split (c # rest) key) v = c # js_join (js_split rest key) v"
    by (simp add: pass_skip)
  have nil: "js_join (js_split [] key) v = []"
    by (rule pass_Nil)
  have order: "s \<noteq> [] \<longrightarrow> applyKubeSubstitutions (Some s) =
        Some (foldl (\<lambda>acc (key, value). js_join (js_split acc key) value) s kubeVarMap)"
    by (simp add: applyKubeSubstitutions_def truthy_def substituteAll_def)
  have later: "applyKubeSubstitutions (Some ''$$kubeletbinconf'') = Some ''/var/lib/kubelet/config.yaml''"
    using substituteAll_stray_dollar by (simp add: applyKubeSubstitutions_def truthy_def)
  show ?thesis
    by (intro conjI) (fact count absent pieces dollar_free match skip nil order later)+
qed

theorem applyKubeSubstitutions_expands_witness:
  "applyKubeSubstitutions (Some ''stat -c %a $kubeletconf; echo $?'')
      = Some ''stat -c %a /var/lib/kubelet/config.yaml; echo $?''
   \<and> applyKubeSubstitutions (Some (concat (rev (map fst kubeVarMap))))
       = Some (concat (rev (map snd kubeVarMap)))
   \<and> applyKubeSubstitutions (Some ''chmod 600 /etc/kubernetes/admin.conf'')
       = Some ''chmod 600 /etc/kubernetes/admin.conf''"
proof -
  note inst = applyKubeSubstitutions_expands [of "''chmod 600 /etc/kubernetes/admin.conf''"
      "[Text ''stat -c %a '', Token ''$kubeletconf'', Text ''; echo $?'']" "[]"
      "''$etcdbin''" "[]" "''etcd''" "CHR ''x''"]
  have no_token: "\<forall>key\<in>fst ` set kubeVarMap. \<not> js_includes ''chmod 600 /etc/kubernetes/admin.conf'' key"
    by (simp add: kubeVarMap_def)
  have built: "\<forall>p\<in>set [Text ''stat -c %a '', Token ''$kubeletconf'', Text ''; echo $?''].
       case p of Text t \<Rightarrow> plain t | Token k \<Rightarrow> k \<in> fst ` set kubeVarMap"
    by (simp add: kubeVarMap_def)
  from inst have "(\<forall>key\<in>fst ` set kubeVarMap. \<not> js_includes ''chmod 600 /etc/kubernetes/admin.conf'' key)
        \<longrightarrow> applyKubeSubstitutions (Some ''chmod 600 /etc/kubernetes/admin.conf'')
            = Some ''chmod 600 /etc/kubernetes/admin.conf''"
    by (elim conjE)
  with no_token have same: "applyKubeSubstitutions (Some ''chmod 600 /etc/kubernetes/admin.conf'')
            = Some ''chmod 600 /etc/kubernetes/admin.conf''"
    by (rule rev_mp)
  from inst have "(\<forall>p\<in>set [Text ''stat -c %a '', Token ''$kubeletconf'', Text ''; echo $?''].
         case p of Text t \<Rightarrow> plain t | Token k \<Rightarrow> k \<in> fst ` set kubeVarMap)
        \<longrightarrow> applyKubeSubstitutions (Some (pieces_text [Text ''stat -c %a '', Token ''$kubeletconf'', Text ''; echo $?'']))
            = Some (pieces_expanded [Text ''stat -c %a '', Token ''$kubeletconf'', Text ''; echo $?''])"
    by (elim conjE)
  with built have "applyKubeSubstitutions (Some (pieces_text [Text ''stat -c %a '', Token ''$kubeletconf'', Text ''; echo $?'']))
            = Some (pieces_expanded [Text ''stat -c %a '', Token ''$kubeletconf'', Text ''; echo $?''])"
    by (rule rev_mp)
  then have expanded: "applyKubeSubstitutions (Some ''stat -c %a $kubeletconf; echo $?'')
      = Some ''stat -c %a /var/lib/kubelet/config.yaml; echo $?''"
    by (simp add: pieces_text_def pieces_expanded_def kubeVarMap_def)
  note all = applyKubeSubstitutions_expands [of "[]"
      "map Token (rev (map fst kubeVarMap))" "[]" "''$etcdbin''" "[]" "''etcd''" "CHR ''x''"]
  have all_built: "\<forall>p\<in>set (map Token (rev (map fst kubeVarMap))).
       case p of Text t \<Rightarrow> plain t | Token k \<Rightarrow> k \<in> fst ` set kubeVarMap"
    by auto
  from all have "(\<forall>p\<in>set (map Token (rev (map fst kubeVarMap))).
         case p of Text t \<Rightarrow> plain t | Token k \<Rightarrow> k \<in> fst ` set kubeVarMap)
        \<longrightarrow> applyKubeSubstitutions (Some (pieces_text (map Token (rev (map fst kubeVarMap)))))
            = Some (pieces_expanded (map Token (rev (map fst kubeVarMap))))"
    by (elim conjE)
  with all_built have "applyKubeSubstitutions (Some (pieces_text (map Token (rev (map fst kubeVarMap)))))
            = Some (pieces_expanded (map Token (rev (map fst kubeVarMap))))"
    by (rule rev_mp)
  moreover have "pieces_text (map Token (rev (map fst kubeVarMap))) = concat (rev (map fst kubeVarMap))"
    by (simp add: pieces_text_def comp_def)
  moreover have "pieces_expanded (map Token (rev (map fst kubeVarMap))) = concat (rev (map snd kubeVarMap))"
    by (simp add: pieces_expanded_def kubeVarMap_def)
  ultimately have adjacent: "applyKubeSubstitutions (Some (concat (rev (map fst kubeVarMap))))
       = Some (concat (rev (map snd kubeVarMap)))"
    by simp
  from expanded adjacent same show ?thesis by (intro conjI)
qed

text \<open>
  C7, the claim as stated, fails: in the text that starts with "$$kubeletbinconf" and
  goes on with the other 18 tokens, each of the 19 tokens occurs exactly once, and the
  result is not that text with every token occurrence replaced by its value: the pass
  for "$kubeletbin" leaves "$kubeletconf", which the later pass for that token replaces.
\<close>

theorem applyKubeSubstitutions_expands_counterexample:
  "list_all (\<lambda>key. occurrences
      (pieces_text ([Text ''$'', Token ''$kubeletbin'', Text ''conf'']
         @ map Token (filter (\<lambda>k. k \<noteq> ''$kubeletbin'') (map fst kubeVarMap)))) key = 1)
     (map fst kubeVarMap)
   \<and> applyKubeSubstitutions (Some
      (pieces_text ([Text ''$'', Token ''$kubeletbin'', Text ''conf'']
         @ map Token (filter (\<lambda>k. k \<noteq> ''$kubeletbin'') (map fst kubeVarMap)))))
   \<noteq> Some (pieces_expanded ([Text ''$'', Token ''$kubeletbin'', Text ''conf'']
         @ map Token (filter (\<lambda>k. k \<noteq> ''$kubeletbin'') (map fst kubeVarMap))))"
  using stray_once stray_differs by (intro conjI)

end
